theory Spec2Isabelle
  imports
    Main
    "HOL-Library.Word"
    "HOL-Library.Char_ord"
    "HOL-Library.List_Lexorder"
begin

section \<open>Python text and results of system calls\<close>

text \<open>
  A Python \<open>str\<close> is a \<open>string\<close>: the list of the bytes of its UTF-8 encoding.  Substring
  tests and the order of \<open>sorted\<close> agree on code points and on UTF-8 bytes.  The case
  mappings, \<open>isdigit\<close> and the white space of \<open>strip\<close> and \<open>split\<close> are those of
  ASCII; bytes of a character outside ASCII (the box-drawing characters of the
  \<open>wpctl status\<close> listing) are uncased, are no digits and are no white space.
\<close>

text \<open>\<open>sub in s\<close> on Python strings.\<close>

fun starts_with :: "string \<Rightarrow> string \<Rightarrow> bool" where
  "starts_with s [] = True"
| "starts_with [] (c # sub) = False"
| "starts_with (x # s) (c # sub) = (x = c \<and> starts_with s sub)"

fun py_in :: "string \<Rightarrow> string \<Rightarrow> bool" where
  "py_in sub [] = (sub = [])"
| "py_in sub (x # s) = (starts_with (x # s) sub \<or> py_in sub s)"

definition upper_char :: "char \<Rightarrow> char" where
  "upper_char c =
     (case map_of (zip ''abcdefghijklmnopqrstuvwxyz'' ''ABCDEFGHIJKLMNOPQRSTUVWXYZ'') c of
        None \<Rightarrow> c | Some d \<Rightarrow> d)"

definition lower_char :: "char \<Rightarrow> char" where
  "lower_char c =
     (case map_of (zip ''ABCDEFGHIJKLMNOPQRSTUVWXYZ'' ''abcdefghijklmnopqrstuvwxyz'') c of
        None \<Rightarrow> c | Some d \<Rightarrow> d)"

definition upper :: "string \<Rightarrow> string" where
  "upper s = map upper_char s"

definition lower :: "string \<Rightarrow> string" where
  "lower s = map lower_char s"

text \<open>\<open>s.split(sep)\<close> for a separator of one character: never an empty list.\<close>

fun split_on :: "char \<Rightarrow> string \<Rightarrow> string list" where
  "split_on sep [] = [[]]"
| "split_on sep (x # s) =
     (if x = sep then [] # split_on sep s
      else (case split_on sep s of
              [] \<Rightarrow> [[x]]
            | p # ps \<Rightarrow> (x # p) # ps))"

definition is_space :: "char \<Rightarrow> bool" where
  "is_space c = (c \<in> set [CHR 0x09, CHR ''\<newline>'', CHR 0x0B, CHR 0x0C, CHR 0x0D,
                           CHR 0x1C, CHR 0x1D, CHR 0x1E, CHR 0x1F, CHR '' ''])"

text \<open>\<open>s.strip()\<close>.\<close>

definition strip :: "string \<Rightarrow> string" where
  "strip s = rev (dropWhile is_space (rev (dropWhile is_space s)))"

text \<open>
  \<open>s.split()\<close>: the maximal runs of characters that are no white space.  \<open>cur\<close> is the
  run being read.
\<close>

fun split_ws_from :: "string \<Rightarrow> string \<Rightarrow> string list" where
  "split_ws_from cur [] = (if cur = [] then [] else [cur])"
| "split_ws_from cur (x # s) =
     (if is_space x then (if cur = [] then split_ws_from [] s else cur # split_ws_from [] s)
      else split_ws_from (cur @ [x]) s)"

definition split_ws :: "string \<Rightarrow> string list" where
  "split_ws s = split_ws_from [] s"

definition is_digit_char :: "char \<Rightarrow> bool" where
  "is_digit_char c = (c \<in> set ''0123456789'')"

text \<open>\<open>s.isdigit()\<close>: false on the empty string.\<close>

definition isdigit :: "string \<Rightarrow> bool" where
  "isdigit s = (s \<noteq> [] \<and> list_all is_digit_char s)"

definition digit_val :: "char \<Rightarrow> nat" where
  "digit_val c = (case map_of (zip ''0123456789'' [0, 1, 2, 3, 4, 5, 6, 7, 8, 9]) c of
                    None \<Rightarrow> 0 | Some d \<Rightarrow> d)"

text \<open>\<open>int(s)\<close> where \<open>s.isdigit()\<close> holds: the result is never negative.\<close>

definition py_int :: "string \<Rightarrow> nat" where
  "py_int s = foldl (\<lambda>acc c. 10 * acc + digit_val c) 0 s"

text \<open>\<open>str(n)\<close> for an integer that is not negative.\<close>

fun str_nat :: "nat \<Rightarrow> string" where
  "str_nat n =
     (if n < 10 then [''0123456789'' ! n]
      else str_nat (n div 10) @ [''0123456789'' ! (n mod 10)])"

declare str_nat.simps [simp del]

text \<open>
  A call that can raise: \<open>Raises msg\<close> is an exception that \<open>except Exception\<close> catches,
  with \<open>str(e) = msg\<close>; \<open>Returns v\<close> is the value returned.
\<close>

datatype 'a io = Raises string | Returns 'a

text \<open>What the process does that can be seen from outside, in order.\<close>

datatype event =
    Print string
  | Run "string list"
  | Close nat

section \<open>Configuration and constants\<close>

definition HEADPHONE_SINK_NAME :: string where
  "HEADPHONE_SINK_NAME = ''Arctis Nova Pro''"

definition SPEAKER_SINK_NAME :: string where
  "SPEAKER_SINK_NAME = ''Starship/Matisse''"

definition VENDOR_ID :: string where
  "VENDOR_ID = ''1038''"

definition PRODUCT_IDS :: "string list" where
  "PRODUCT_IDS = [''12E0'', ''12E5'']"

type_synonym byte = "8 word"

definition POLL_COMMAND :: "byte list" where
  "POLL_COMMAND = [0x06, 0xb0] @ replicate 29 0x00"

definition HEADSET_OFFLINE :: byte where
  "HEADSET_OFFLINE = 0x01"

definition HEADSET_CHARGING :: byte where
  "HEADSET_CHARGING = 0x02"

definition HEADSET_ONLINE :: byte where
  "HEADSET_ONLINE = 0x08"

text \<open>The timeout of \<open>select.select([fd], [], [], 0.5)\<close>, in milliseconds.\<close>

definition SELECT_TIMEOUT_MS :: nat where
  "SELECT_TIMEOUT_MS = 500"

section \<open>Headset status poller\<close>

text \<open>The values \<open>"ON"\<close> and \<open>"OFF"\<close>; Python's \<open>None\<close> is \<open>None\<close>.\<close>

datatype headset_state = ON | OFF

text \<open>
  What the device node does in one poll: the result of \<open>os.write\<close> (the number of bytes
  written), the time in milliseconds after which the descriptor becomes readable
  (\<open>None\<close>: never; \<open>Raises\<close>: \<open>select\<close> raises), and the report that \<open>os.read\<close>
  finds.
\<close>

record hid_io =
  hid_write :: "nat io"
  hid_ready_after :: "nat option io"
  hid_read :: "byte list io"

text \<open>
  \<open>select.select([fd], [], [], timeout)\<close> returns the descriptor when it becomes
  readable within the timeout, and the empty list when the timeout expires first.
\<close>

definition select_readable :: "nat \<Rightarrow> nat option \<Rightarrow> bool" where
  "select_readable timeout_ms ready_after =
     (case ready_after of None \<Rightarrow> False | Some t \<Rightarrow> t \<le> timeout_ms)"

text \<open>The time for which that call blocks.\<close>

definition select_blocks_ms :: "nat \<Rightarrow> nat option \<Rightarrow> nat" where
  "select_blocks_ms timeout_ms ready_after =
     (case ready_after of None \<Rightarrow> timeout_ms | Some t \<Rightarrow> min t timeout_ms)"

text \<open>\<open>get_headset_state(fd)\<close>: the lines printed and the value returned.\<close>

definition get_headset_state :: "hid_io \<Rightarrow> event list \<times> headset_state option" where
  "get_headset_state dev =
     (case hid_write dev of
        Raises e \<Rightarrow> ([Print (''Error polling headset: '' @ e)], None)
      | Returns _ \<Rightarrow>
          (case hid_ready_after dev of
             Raises e \<Rightarrow> ([Print (''Error polling headset: '' @ e)], None)
           | Returns r \<Rightarrow>
               if \<not> select_readable SELECT_TIMEOUT_MS r then ([], None)
               else
                 (case hid_read dev of
                    Raises e \<Rightarrow> ([Print (''Error polling headset: '' @ e)], None)
                  | Returns report \<Rightarrow>
                      let response = take 128 report in
                      if length response < 16 then ([], None)
                      else
                        let status_byte = response ! 15 in
                        if status_byte = HEADSET_OFFLINE then ([], Some OFF)
                        else if status_byte \<in> {HEADSET_ONLINE, HEADSET_CHARGING}
                          then ([], Some ON)
                        else ([], None))))"

text \<open>The time for which \<open>get_headset_state\<close> waits for the device to answer.\<close>

definition get_headset_state_waits_ms :: "hid_io \<Rightarrow> nat" where
  "get_headset_state_waits_ms dev =
     (case hid_write dev of
        Raises e \<Rightarrow> 0
      | Returns _ \<Rightarrow>
          (case hid_ready_after dev of
             Raises e \<Rightarrow> 0
           | Returns r \<Rightarrow> select_blocks_ms SELECT_TIMEOUT_MS r))"

section \<open>Device locator\<close>

text \<open>\<open>s.replace(old, new)\<close> for a pattern \<open>old\<close> that is not empty.\<close>

function py_replace :: "string \<Rightarrow> string \<Rightarrow> string \<Rightarrow> string" where
  "py_replace old new [] = []"
| "py_replace old new (x # s) =
     (if old \<noteq> [] \<and> starts_with (x # s) old
      then new @ py_replace old new (drop (length old) (x # s))
      else x # py_replace old new s)"
  by pat_completeness auto
termination
  by (relation "measure (\<lambda>(old, new, s). length s)") auto

text \<open>
  A file of sysfs as the locator sees it: \<open>os.path.exists\<close> is false, or \<open>open\<close> or
  \<open>read\<close> raises, or the text is read.
\<close>

datatype file_node = Missing | Unreadable string | Content string

definition uevent_path_of :: "string \<Rightarrow> string" where
  "uevent_path_of device =
     (let device_num = py_replace ''/dev/hidraw'' [] device;
          sysfs_path = ''/sys/class/hidraw/hidraw'' @ device_num @ ''/device''
      in sysfs_path @ ''/uevent'')"

text \<open>The loop of \<open>find_hidraw_device\<close> over the sorted device nodes.\<close>

fun scan_devices :: "(string \<Rightarrow> file_node) \<Rightarrow> string list \<Rightarrow> event list \<times> string option" where
  "scan_devices fs [] = ([], None)"
| "scan_devices fs (device # rest) =
     (case fs (uevent_path_of device) of
        Missing \<Rightarrow> scan_devices fs rest
      | Unreadable e \<Rightarrow> scan_devices fs rest
      | Content text \<Rightarrow>
          let uevent = upper text in
          if \<not> py_in VENDOR_ID uevent then scan_devices fs rest
          else if \<not> list_ex (\<lambda>pid. py_in pid uevent) PRODUCT_IDS then scan_devices fs rest
          else if \<not> py_in ''INPUT4'' uevent then
            (let (out, found) = scan_devices fs rest
             in (Print (''Skipping '' @ device @ '' - not interface 4'') # out, found))
          else ([Print (''Found Arctis Nova Pro on '' @ device @ '' (interface 4)'')],
                Some device))"

text \<open>
  \<open>find_hidraw_device()\<close>: \<open>nodes\<close> is what \<open>glob.glob("/dev/hidraw*")\<close> returns, in
  the order the file system gives.
\<close>

definition find_hidraw_device ::
  "string list \<Rightarrow> (string \<Rightarrow> file_node) \<Rightarrow> event list \<times> string option" where
  "find_hidraw_device nodes fs = scan_devices fs (sort nodes)"

section \<open>Output switch controller\<close>

text \<open>The character U+2502 (box drawings light vertical), in UTF-8.\<close>

definition BOX_VERTICAL :: string where
  "BOX_VERTICAL = [CHR 0xE2, CHR 0x94, CHR 0x82]"

text \<open>
  The body of \<open>if "Analog Stereo" in line or "Stereo" in line\<close>: \<open>Inr (Some n)\<close> is
  \<open>return n\<close>, \<open>Inr None\<close> goes on with the next line, and \<open>Inl msg\<close> is the
  \<open>IndexError\<close> of \<open>[-1]\<close> on an empty list.
\<close>

definition sink_id_of_line :: "string \<Rightarrow> string + nat option" where
  "sink_id_of_line line =
     (let parts = split_on CHR ''.'' line in
      if length parts \<ge> 2 then
        (case split_ws (strip (hd parts)) of
           [] \<Rightarrow> Inl ''list index out of range''
         | w # ws \<Rightarrow>
             let num_part = last (w # ws) in
             if isdigit num_part then Inr (Some (py_int num_part)) else Inr None)
      else Inr None)"

text \<open>The loop of \<open>find_sink_id\<close> over the lines of the listing.\<close>

fun scan_sinks :: "string \<Rightarrow> bool \<Rightarrow> string list \<Rightarrow> string + nat option" where
  "scan_sinks name_pattern in_sinks_section [] = Inr None"
| "scan_sinks name_pattern in_sinks_section (line # rest) =
     (if py_in ''Sinks:'' line then scan_sinks name_pattern True rest
      else if in_sinks_section \<and> (py_in '':'' line \<and> \<not> py_in BOX_VERTICAL line) then Inr None
      else if in_sinks_section \<and> py_in (lower name_pattern) (lower line) then
        (if py_in ''Analog Stereo'' line \<or> py_in ''Stereo'' line then
           (case sink_id_of_line line of
              Inl e \<Rightarrow> Inl e
            | Inr (Some n) \<Rightarrow> Inr (Some n)
            | Inr None \<Rightarrow> scan_sinks name_pattern in_sinks_section rest)
         else scan_sinks name_pattern in_sinks_section rest)
      else scan_sinks name_pattern in_sinks_section rest)"

text \<open>
  \<open>find_sink_id(name_pattern)\<close>: \<open>status\<close> is what \<open>subprocess.run(["wpctl",
  "status"], ...)\<close> does, raising or returning the text of the standard output.
\<close>

definition find_sink_id :: "string io \<Rightarrow> string \<Rightarrow> event list \<times> nat option" where
  "find_sink_id status name_pattern =
     (case status of
        Raises e \<Rightarrow> ([Run [''wpctl'', ''status''], Print (''Error finding sink: '' @ e)], None)
      | Returns stdout \<Rightarrow>
          (case scan_sinks name_pattern False (split_on CHR ''\<newline>'' stdout) of
             Inl e \<Rightarrow> ([Run [''wpctl'', ''status''], Print (''Error finding sink: '' @ e)], None)
           | Inr found \<Rightarrow> ([Run [''wpctl'', ''status'']], found)))"

text \<open>
  What the two commands do when \<open>switch_audio\<close> runs them: the listing, and the exit
  status of \<open>wpctl set-default\<close>, unless starting the command raises.
\<close>

record wpctl_io =
  wpctl_status :: "string io"
  wpctl_set_default :: "int io"

text \<open>
  \<open>switch_audio(sink_name_pattern, friendly_name)\<close>.  The second call of
  \<open>subprocess.run\<close> has \<open>check=False\<close> and stands in no \<open>try\<close>: an exit status is
  ignored, an exception leaves the function.
\<close>

definition switch_audio :: "wpctl_io \<Rightarrow> string \<Rightarrow> string \<Rightarrow> event list \<times> unit io" where
  "switch_audio ctl sink_name_pattern friendly_name =
     (let (out, sink_id) = find_sink_id (wpctl_status ctl) sink_name_pattern in
      case sink_id of
        None \<Rightarrow>
          (out @ [Print (''WARNING: Could not find sink matching '' @ [CHR 0x27]
                         @ sink_name_pattern @ [CHR 0x27])],
           Returns ())
      | Some n \<Rightarrow>
          (out @ [Print (''Switching audio to '' @ friendly_name @ '' (sink '' @ str_nat n @ '')''),
                  Run [''wpctl'', ''set-default'', str_nat n]],
           case wpctl_set_default ctl of Raises e \<Rightarrow> Raises e | Returns status \<Rightarrow> Returns ()))"

section \<open>Main loop\<close>

text \<open>
  The variables of the loop: \<open>last_state\<close>, what the process has done so far, and
  (for the proofs only) the arguments of every call of \<open>switch_audio\<close>.
\<close>

record loop_state =
  last_state :: "headset_state option"
  trace :: "event list"
  switches :: "(string \<times> string) list"

definition str_state :: "headset_state option \<Rightarrow> string" where
  "str_state s = (case s of None \<Rightarrow> ''None'' | Some ON \<Rightarrow> ''ON'' | Some OFF \<Rightarrow> ''OFF'')"

text \<open>A call of \<open>switch_audio\<close> from the loop.\<close>

definition call_switch_audio ::
  "loop_state \<Rightarrow> wpctl_io \<Rightarrow> string \<Rightarrow> string \<Rightarrow> loop_state \<times> unit io" where
  "call_switch_audio st ctl sink_name_pattern friendly_name =
     (let (out, r) = switch_audio ctl sink_name_pattern friendly_name
      in (st\<lparr>trace := trace st @ out,
              switches := switches st @ [(sink_name_pattern, friendly_name)]\<rparr>, r))"

text \<open>
  One pass through the body of \<open>while True\<close>, up to \<open>time.sleep\<close>.  An exception
  out of \<open>switch_audio\<close> leaves the body before \<open>last_state = state\<close>.
\<close>

definition loop_body :: "loop_state \<Rightarrow> hid_io \<Rightarrow> wpctl_io \<Rightarrow> loop_state \<times> unit io" where
  "loop_body st dev ctl =
     (let (out, state) = get_headset_state dev;
          st1 = st\<lparr>trace := trace st @ out\<rparr>
      in
      if state \<noteq> None \<and> state \<noteq> last_state st then
        (let st2 = st1\<lparr>trace := trace st1 @
                     [Print (''Headset state changed: '' @ str_state (last_state st)
                             @ '' -> '' @ str_state state)]\<rparr>;
             (st3, r) =
               (if state = Some ON then call_switch_audio st2 ctl HEADPHONE_SINK_NAME ''Headphones''
                else if state = Some OFF then call_switch_audio st2 ctl SPEAKER_SINK_NAME ''Speakers''
                else (st2, Returns ()))
         in case r of
              Raises e \<Rightarrow> (st3, Raises e)
            | Returns _ \<Rightarrow> (st3\<lparr>last_state := state\<rparr>, Returns ()))
      else (st1, Returns ()))"

text \<open>
  What happens to the process in one round: a pass through the body with the device and
  the commands behaving as given, or a \<open>KeyboardInterrupt\<close> that arrives while the
  loop sleeps.
\<close>

datatype cycle = Cycle hid_io wpctl_io | Interrupt

text \<open>
  How the process stands: it has ended with an exit status, it has died of an exception
  nobody caught (the interpreter prints the traceback and the exit status is 1), or it is
  still in the loop.
\<close>

datatype outcome = Exit nat | Uncaught string | Running

definition exit_status :: "outcome \<Rightarrow> nat option" where
  "exit_status out = (case out of Exit n \<Rightarrow> Some n | Uncaught e \<Rightarrow> Some 1 | Running \<Rightarrow> None)"

text \<open>
  The \<open>try\<close> statement around \<open>while True\<close>, on the rounds that have happened so far:
  \<open>except KeyboardInterrupt\<close> ends the loop, \<open>finally\<close> closes the descriptor on
  every way out.
\<close>

fun run_loop :: "nat \<Rightarrow> loop_state \<Rightarrow> cycle list \<Rightarrow> loop_state \<times> outcome" where
  "run_loop fd st [] = (st, Running)"
| "run_loop fd st (Interrupt # rest) =
     (st\<lparr>trace := trace st @ [Print ''\<newline>Shutting down...'', Close fd]\<rparr>, Exit 0)"
| "run_loop fd st (Cycle dev ctl # rest) =
     (case loop_body st dev ctl of
        (st', Raises e) \<Rightarrow> (st'\<lparr>trace := trace st' @ [Close fd]\<rparr>, Uncaught e)
      | (st', Returns _) \<Rightarrow> run_loop fd st' rest)"

text \<open>\<open>os.open(device, os.O_RDWR)\<close>.\<close>

datatype open_result = Opened nat | PermissionError | Open_raises string

text \<open>
  Everything outside the process that \<open>main\<close> depends on.  In \<open>main\<close>,
  \<open>if not device\<close> takes \<open>None\<close> and the empty string for no device.
\<close>

record world =
  hidraw_nodes :: "string list"
  sysfs :: "string \<Rightarrow> file_node"
  open_device :: open_result
  rounds :: "cycle list"

definition main :: "world \<Rightarrow> loop_state \<times> outcome" where
  "main w =
     (let (out, device) = find_hidraw_device (hidraw_nodes w) (sysfs w);
          tr = Print ''SteelSeries Arctis Nova Pro Audio Switcher starting...'' # out
      in
      if device = None \<or> device = Some [] then
        (\<lparr>last_state = None,
          trace = tr @
            [Print ''ERROR: Could not find Arctis Nova Pro HID device (interface 4)'',
             Print ''Make sure the device is connected and udev rules are in place''],
          switches = []\<rparr>, Exit 1)
      else
        (let d = the device in
         case open_device w of
           PermissionError \<Rightarrow>
             (\<lparr>last_state = None,
               trace = tr @
                 [Print (''Using device: '' @ d),
                  Print (''ERROR: Permission denied accessing '' @ d),
                  Print (''Make sure udev rules are installed and you'' @ [CHR 0x27]
                         @ ''ve re-plugged the device'')],
               switches = []\<rparr>, Exit 1)
         | Open_raises e \<Rightarrow>
             (\<lparr>last_state = None, trace = tr @ [Print (''Using device: '' @ d)],
               switches = []\<rparr>, Uncaught e)
         | Opened fd \<Rightarrow>
             run_loop fd
               \<lparr>last_state = None,
                trace = tr @ [Print (''Using device: '' @ d), Print ''Monitoring headset state...''],
                switches = []\<rparr>
               (rounds w)))"

section \<open>Notions of the specification\<close>

text \<open>
  The switch that belongs to a state: headphones for Online, speakers for Offline, as
  the arguments of \<open>switch_audio\<close>.
\<close>

definition switch_for :: "headset_state \<Rightarrow> string \<times> string" where
  "switch_for s = (case s of ON \<Rightarrow> (HEADPHONE_SINK_NAME, ''Headphones'')
                           | OFF \<Rightarrow> (SPEAKER_SINK_NAME, ''Speakers''))"

text \<open>The poll outcome of a round: what \<open>get_headset_state\<close> returns in it.\<close>

definition polled :: "hid_io \<times> wpctl_io \<Rightarrow> headset_state option" where
  "polled r = snd (get_headset_state (fst r))"

text \<open>The outcomes that are not Unknown, in order.\<close>

definition definite :: "'a option list \<Rightarrow> 'a list" where
  "definite ps = List.map_filter (\<lambda>p. p) ps"

definition known :: "'a option \<Rightarrow> 'a list" where
  "known l = (case l of None \<Rightarrow> [] | Some s \<Rightarrow> [s])"

text \<open>Rounds in which no interrupt arrives.\<close>

definition as_rounds :: "(hid_io \<times> wpctl_io) list \<Rightarrow> cycle list" where
  "as_rounds rs = map (\<lambda>r. Cycle (fst r) (snd r)) rs"

text \<open>
  A device node qualifies when its metadata is there and contains the vendor ID, one of
  the accepted product IDs and the mark of interface 4, whatever the case of the letters.
\<close>

definition qualifies :: "file_node \<Rightarrow> bool" where
  "qualifies f =
     (case f of
        Content text \<Rightarrow>
          py_in VENDOR_ID (upper text)
          \<and> (\<exists>pid\<in>set PRODUCT_IDS. py_in pid (upper text))
          \<and> py_in ''INPUT4'' (upper text)
      | _ \<Rightarrow> False)"



section \<open>Devices and listings for examples\<close>

text \<open>A device that answers after 2 ms with a report of 16 bytes, the last one given.\<close>

definition answering :: "byte \<Rightarrow> hid_io" where
  "answering b =
     \<lparr>hid_write = Returns 31, hid_ready_after = Returns (Some 2),
      hid_read = Returns (replicate 15 0 @ [b])\<rparr>"

text \<open>A device that takes the command and never answers.\<close>

definition silent :: hid_io where
  "silent = \<lparr>hid_write = Returns 31, hid_ready_after = Returns None, hid_read = Returns []\<rparr>"

text \<open>A device whose node has gone: writing raises.\<close>

definition unplugged :: hid_io where
  "unplugged =
     \<lparr>hid_write = Raises ''[Errno 19] No such device'', hid_ready_after = Returns None,
      hid_read = Returns []\<rparr>"

definition BOX_BRANCH :: string where
  "BOX_BRANCH = [CHR 0xE2, CHR 0x94, CHR 0x9C, CHR 0xE2, CHR 0x94, CHR 0x80]"

text \<open>
  A listing as \<open>wpctl status\<close> prints it: the headset as a device (46), in the Sinks
  section the stereo stream of the headset (52) after a raw entry with the same name (47),
  and a source with the name and the word Stereo (60) after the section.
\<close>

definition sinks_body :: "string list" where
  "sinks_body =
     ['' '' @ BOX_VERTICAL @ ''      47. Arctis Nova Pro Wireless                [alsa]'',
      '' '' @ BOX_VERTICAL @ ''  *   52. Arctis Nova Pro Wireless Analog Stereo [vol: 0.95]'',
      '' '' @ BOX_VERTICAL @ ''  '']"

definition listing_lines :: "string list" where
  "listing_lines =
     [''Audio'',
      '' '' @ BOX_BRANCH @ '' Devices:'',
      '' '' @ BOX_VERTICAL @ ''      46. Arctis Nova Pro Wireless Analog Stereo  [alsa]'',
      '' '' @ BOX_VERTICAL @ ''  '',
      '' '' @ BOX_BRANCH @ '' Sinks:'']
     @ sinks_body @
     ['' '' @ BOX_BRANCH @ '' Sources:'',
      '' '' @ BOX_VERTICAL @ ''      60. Arctis Nova Pro Wireless Mono Stereo [vol: 1.00]'',
      '''']"

text \<open>The lines joined by newlines, as \<open>"\n".join\<close> does.\<close>

fun join_lines :: "string list \<Rightarrow> string" where
  "join_lines [] = []"
| "join_lines [l] = l"
| "join_lines (l # m # ls) = l @ CHR ''\<newline>'' # join_lines (m # ls)"

definition example_listing :: string where
  "example_listing = join_lines listing_lines"


text \<open>
  The commands behaving well; the listing failing to start; and the listing working while
  \<open>wpctl set-default\<close> cannot be started.
\<close>

definition wpctl_works :: wpctl_io where
  "wpctl_works = \<lparr>wpctl_status = Returns example_listing, wpctl_set_default = Returns 0\<rparr>"

definition wpctl_missing :: wpctl_io where
  "wpctl_missing =
     \<lparr>wpctl_status = Raises ''[Errno 2] No such file or directory'',
      wpctl_set_default = Raises ''[Errno 2] No such file or directory''\<rparr>"

definition wpctl_set_default_fails_to_start :: wpctl_io where
  "wpctl_set_default_fails_to_start =
     \<lparr>wpctl_status = Returns example_listing,
      wpctl_set_default = Raises ''[Errno 11] Resource temporarily unavailable''\<rparr>"

text \<open>A sysfs with the headset's control interface behind \<open>/dev/hidraw3\<close>.\<close>

definition example_sysfs :: "string \<Rightarrow> file_node" where
  "example_sysfs path =
     (if path = ''/sys/class/hidraw/hidraw3/device/uevent'' then
        Content (join_lines [''DRIVER=hid-generic'', ''HID_ID=0003:00001038:000012E0'',
                  ''HID_NAME=SteelSeries Arctis Nova Pro Wireless'',
                  ''HID_PHYS=usb-0000:0b:00.3-2/input4''])
      else if path = ''/sys/class/hidraw/hidraw2/device/uevent'' then
        Content (join_lines [''DRIVER=hid-generic'', ''HID_ID=0003:00001038:000012E0'',
                  ''HID_NAME=SteelSeries Arctis Nova Pro Wireless'',
                  ''HID_PHYS=usb-0000:0b:00.3-2/input3''])
      else if path = ''/sys/class/hidraw/hidraw10/device/uevent'' then
        Content (join_lines [''DRIVER=hid-generic'', ''HID_ID=0003:00001038:000012e5'',
                  ''HID_PHYS=usb-0000:0b:00.3-4/input4''])
      else if path = ''/sys/class/hidraw/hidraw1/device/uevent'' then
        Unreadable ''[Errno 13] Permission denied''
      else Missing)"

section \<open>Properties of the status poller\<close>

text \<open>
  Claim C2.  When the command is written and the device answers in time, the value that
  \<open>get_headset_state\<close> returns is a function of the bytes \<open>os.read(fd, 128)\<close> gives
  and nothing is printed: fewer than 16 bytes give \<open>None\<close> (Unknown); otherwise the
  byte at offset 15 decides, 0x01 giving \<open>OFF\<close>, 0x08 and 0x02 giving \<open>ON\<close>
  and every other value \<open>None\<close>.
\<close>

theorem status_parsing:
  assumes "hid_write dev = Returns n"
    and "hid_ready_after dev = Returns (Some t)" and "t \<le> 500"
    and "hid_read dev = Returns report" and "response = take 128 report"
  shows "get_headset_state dev =
           ([], if length response < 16 then None
                else if response ! 15 = 0x01 then Some OFF
                else if response ! 15 = 0x08 \<or> response ! 15 = 0x02 then Some ON
                else None)"
  using assms
  by (auto simp add: get_headset_state_def select_readable_def SELECT_TIMEOUT_MS_def
      HEADSET_OFFLINE_def HEADSET_ONLINE_def HEADSET_CHARGING_def Let_def)

theorem status_parsing_witness:
  "get_headset_state
     \<lparr>hid_write = Returns 31, hid_ready_after = Returns (Some 3),
      hid_read = Returns (replicate 15 0 @ [0x02, 0x07])\<rparr> = ([], Some ON)"
  using status_parsing [of "\<lparr>hid_write = Returns 31, hid_ready_after = Returns (Some 3),
      hid_read = Returns (replicate 15 0 @ [0x02, 0x07])\<rparr>" 31 3
      "replicate 15 0 @ [0x02, 0x07]" "replicate 15 0 @ [0x02, 0x07]"]
  by (simp add: nth_append)

text \<open>
  Claim C8.  When the command is written and the device does not become readable within
  500 ms (it becomes readable later, or never), \<open>get_headset_state\<close> returns
  \<open>None\<close> (Unknown) and has waited for the 500 ms of the timeout, no longer.
\<close>

theorem poll_timeout:
  assumes "hid_write dev = Returns n"
    and "hid_ready_after dev = Returns r"
    and "\<forall>t. r = Some t \<longrightarrow> 500 < t"
  shows "get_headset_state dev = ([], None) \<and> get_headset_state_waits_ms dev = 500"
  using assms
  by (cases r) (auto simp add: get_headset_state_def get_headset_state_waits_ms_def
      select_readable_def select_blocks_ms_def SELECT_TIMEOUT_MS_def)

theorem poll_timeout_witness:
  "get_headset_state \<lparr>hid_write = Returns 31, hid_ready_after = Returns None,
      hid_read = Returns []\<rparr> = ([], None)
   \<and> get_headset_state \<lparr>hid_write = Returns 31, hid_ready_after = Returns (Some 501),
      hid_read = Returns (replicate 15 0 @ [0x08])\<rparr> = ([], None)"
  using poll_timeout [of "\<lparr>hid_write = Returns 31, hid_ready_after = Returns None,
      hid_read = Returns []\<rparr>" 31 None]
    poll_timeout [of "\<lparr>hid_write = Returns 31, hid_ready_after = Returns (Some 501),
      hid_read = Returns (replicate 15 0 @ [0x08])\<rparr>" 31 "Some 501"]
  by simp

section \<open>Properties of the main loop\<close>

lemma loop_body_same:
  assumes "snd (get_headset_state dev) = None \<or> snd (get_headset_state dev) = last_state st"
  shows "loop_body st dev ctl = (st\<lparr>trace := trace st @ fst (get_headset_state dev)\<rparr>, Returns ())"
  using assms by (auto simp add: loop_body_def split: prod.splits)

lemma loop_body_edge:
  assumes "snd (get_headset_state dev) = Some s" and "last_state st \<noteq> Some s"
  shows "switches (fst (loop_body st dev ctl)) = switches st @ [switch_for s]"
    and "last_state (fst (loop_body st dev ctl)) =
           (if snd (loop_body st dev ctl) = Returns () then Some s else last_state st)"
  using assms
  by (cases s; auto simp add: loop_body_def call_switch_audio_def switch_for_def Let_def
      split: prod.splits io.splits)+

lemma run_loop_append:
  "run_loop fd st (xs @ ys) =
     (case run_loop fd st xs of (st', Running) \<Rightarrow> run_loop fd st' ys | other \<Rightarrow> other)"
proof (induction xs arbitrary: st)
  case Nil
  show ?case by simp
next
  case (Cons c xs)
  show ?case
  proof (cases c)
    case (Cycle dev ctl)
    then show ?thesis using Cons.IH
      by (simp split: prod.splits io.splits)
  next
    case Interrupt
    then show ?thesis by simp
  qed
qed

lemma run_loop_edges:
  assumes "run_loop fd st (as_rounds rs) = (st', Running)"
  shows "switches st' =
           switches st @ map switch_for
             (drop (length (known (last_state st)))
                (remdups_adj (known (last_state st) @ definite (map polled rs))))
         \<and> last_state st' = (if definite (map polled rs) = [] then last_state st
                             else Some (last (definite (map polled rs))))"
  using assms
proof (induction rs arbitrary: st)
  case Nil
  then show ?case
    by (auto simp add: as_rounds_def definite_def known_def split: option.splits)
next
  case (Cons r rs)
  obtain dev ctl where r: "r = (dev, ctl)" by (cases r)
  obtain st1 res where body: "loop_body st dev ctl = (st1, res)" by (cases "loop_body st dev ctl")
  from Cons.prems r body have res: "res = Returns ()" and rest: "run_loop fd st1 (as_rounds rs) = (st', Running)"
    by (auto simp add: as_rounds_def split: io.splits)
  note IH = Cons.IH [OF rest]
  show ?case
  proof (cases "polled r = None \<or> polled r = last_state st")
    case True
    then have same: "snd (get_headset_state dev) = None \<or> snd (get_headset_state dev) = last_state st"
      by (simp add: polled_def r)
    have st1: "last_state st1 = last_state st" "switches st1 = switches st"
      using loop_body_same [OF same, of ctl] body by auto
    from True show ?thesis
      using IH st1
      by (auto simp add: definite_def known_def split: option.splits)
  next
    case False
    then obtain s where s: "polled r = Some s" "last_state st \<noteq> Some s" by (cases "polled r") auto
    then have p: "snd (get_headset_state dev) = Some s" by (simp add: polled_def r)
    have st1: "last_state st1 = Some s" "switches st1 = switches st @ [switch_for s]"
      using loop_body_edge [OF p s(2), of ctl] body res by auto
    have hd: "remdups_adj (s # xs) = s # tl (remdups_adj (s # xs))" for xs
      by simp
    show ?thesis
      using IH st1 s
      apply (cases "last_state st")
       apply (simp_all add: definite_def known_def)
      subgoal by (metis drop0 drop_Suc hd list.simps(9))
      subgoal by (metis drop0 drop_Suc hd list.simps(9))
      done
  qed
qed


lemma as_rounds_append: "as_rounds (xs @ ys) = as_rounds xs @ as_rounds ys"
  by (simp add: as_rounds_def)

lemma run_loop_prefix:
  assumes "snd (run_loop fd st (as_rounds rs)) = Running"
  shows "snd (run_loop fd st (as_rounds (take k rs))) = Running"
proof -
  have "rs = take k rs @ drop k rs" by simp
  then have "run_loop fd st (as_rounds rs) =
      (case run_loop fd st (as_rounds (take k rs)) of
         (st', Running) \<Rightarrow> run_loop fd st' (as_rounds (drop k rs)) | other \<Rightarrow> other)"
    by (metis as_rounds_append run_loop_append)
  with assms show ?thesis
    by (cases "run_loop fd st (as_rounds (take k rs))"; auto split: outcome.splits)
qed

lemma run_loop_step:
  assumes "snd (run_loop fd st (as_rounds rs)) = Running" and "k < length rs"
  shows "run_loop fd st (as_rounds (take (Suc k) rs)) =
           (fst (loop_body (fst (run_loop fd st (as_rounds (take k rs)))) (fst (rs ! k)) (snd (rs ! k))),
            Running)
         \<and> snd (loop_body (fst (run_loop fd st (as_rounds (take k rs)))) (fst (rs ! k)) (snd (rs ! k)))
             = Returns ()"
proof -
  obtain st1 where st1: "run_loop fd st (as_rounds (take k rs)) = (st1, Running)"
    using run_loop_prefix [OF assms(1), of k] by (cases "run_loop fd st (as_rounds (take k rs))") auto
  have tk: "take (Suc k) rs = take k rs @ [rs ! k]"
    using assms(2) by (simp add: take_Suc_conv_app_nth)
  have "snd (run_loop fd st (as_rounds (take (Suc k) rs))) = Running"
    by (rule run_loop_prefix [OF assms(1)])
  then have one: "snd (run_loop fd st1 (as_rounds [rs ! k])) = Running"
    by (simp add: tk as_rounds_append run_loop_append st1)
  have single: "run_loop fd st1 (as_rounds [rs ! k]) =
      (case loop_body st1 (fst (rs ! k)) (snd (rs ! k)) of
         (st', Raises e) \<Rightarrow> (st'\<lparr>trace := trace st' @ [Close fd]\<rparr>, Uncaught e)
       | (st', Returns u) \<Rightarrow> (st', Running))"
    by (simp add: as_rounds_def split: prod.splits io.splits)
  from one single have "snd (loop_body st1 (fst (rs ! k)) (snd (rs ! k))) = Returns ()"
    and "run_loop fd st1 (as_rounds [rs ! k])
           = (fst (loop_body st1 (fst (rs ! k)) (snd (rs ! k))), Running)"
    by (auto split: prod.splits io.splits)
  then show ?thesis
    by (simp add: tk as_rounds_append run_loop_append st1)
qed

lemma run_loop_quiet:
  assumes "\<forall>r\<in>set rs. polled r = None \<or> polled r = last_state st"
  shows "\<exists>st'. run_loop fd st (as_rounds rs) = (st', Running)
           \<and> switches st' = switches st \<and> last_state st' = last_state st"
  using assms
proof (induction rs arbitrary: st)
  case Nil
  show ?case by (simp add: as_rounds_def)
next
  case (Cons r rs)
  have same: "snd (get_headset_state (fst r)) = None
      \<or> snd (get_headset_state (fst r)) = last_state st"
    using Cons.prems by (simp add: polled_def)
  let ?st1 = "st\<lparr>trace := trace st @ fst (get_headset_state (fst r))\<rparr>"
  have "\<forall>r\<in>set rs. polled r = None \<or> polled r = last_state ?st1"
    using Cons.prems by simp
  from Cons.IH [OF this] show ?case
    by (simp add: as_rounds_def loop_body_same [OF same])
qed

text \<open>
  Claim C1.  Start the loop in its initial state (\<open>last_state = None\<close>, no switch
  yet) and let it pass through any rounds without dying.  Then the calls of
  \<open>switch_audio\<close> are, in order, one for each run of equal states in the poll outcomes
  with the Unknown ones left out: a call happens exactly where the outcome is a state that
  differs from the last known one.  In every single round, an outcome that is Unknown or
  equal to the last known state causes no call and leaves the last known state as it
  is; an outcome that is a different state causes exactly one call, the switch for that
  state, and becomes the last known state.
\<close>

theorem edge_triggering:
  assumes "run_loop fd \<lparr>last_state = None, trace = tr, switches = []\<rparr> (as_rounds rs)
             = (st, Running)"
  shows "switches st = map switch_for (remdups_adj (definite (map polled rs)))
    \<and> (\<forall>k<length rs.
         let before = fst (run_loop fd \<lparr>last_state = None, trace = tr, switches = []\<rparr>
                             (as_rounds (take k rs)));
             after = fst (run_loop fd \<lparr>last_state = None, trace = tr, switches = []\<rparr>
                            (as_rounds (take (Suc k) rs)))
         in (polled (rs ! k) = None \<or> polled (rs ! k) = last_state before \<longrightarrow>
               switches after = switches before \<and> last_state after = last_state before)
          \<and> (\<forall>s. polled (rs ! k) = Some s \<and> last_state before \<noteq> Some s \<longrightarrow>
               switches after = switches before @ [switch_for s] \<and> last_state after = Some s))"
proof (intro conjI allI impI)
  show "switches st = map switch_for (remdups_adj (definite (map polled rs)))"
    using run_loop_edges [OF assms] by (simp add: known_def)
next
  fix k assume k: "k < length rs"
  let ?init = "\<lparr>last_state = None, trace = tr, switches = []\<rparr>"
  let ?before = "fst (run_loop fd ?init (as_rounds (take k rs)))"
  have run: "snd (run_loop fd ?init (as_rounds rs)) = Running"
    using assms by simp
  note step = run_loop_step [OF run k]
  have after: "fst (run_loop fd ?init (as_rounds (take (Suc k) rs)))
      = fst (loop_body ?before (fst (rs ! k)) (snd (rs ! k)))"
    using step by simp
  have ret: "snd (loop_body ?before (fst (rs ! k)) (snd (rs ! k))) = Returns ()"
    using step by simp
  have quiet: "switches (fst (loop_body ?before (fst (rs ! k)) (snd (rs ! k)))) = switches ?before
      \<and> last_state (fst (loop_body ?before (fst (rs ! k)) (snd (rs ! k)))) = last_state ?before"
    if "polled (rs ! k) = None \<or> polled (rs ! k) = last_state ?before"
    using loop_body_same [of "fst (rs ! k)" ?before "snd (rs ! k)"] that
    by (simp add: polled_def)
  have edge: "switches (fst (loop_body ?before (fst (rs ! k)) (snd (rs ! k))))
        = switches ?before @ [switch_for s]
      \<and> last_state (fst (loop_body ?before (fst (rs ! k)) (snd (rs ! k)))) = Some s"
    if "polled (rs ! k) = Some s \<and> last_state ?before \<noteq> Some s" for s
    using loop_body_edge [of "fst (rs ! k)" s ?before "snd (rs ! k)"] that ret
    by (simp add: polled_def)
  show "let before = ?before;
            after = fst (run_loop fd ?init (as_rounds (take (Suc k) rs)))
        in (polled (rs ! k) = None \<or> polled (rs ! k) = last_state before \<longrightarrow>
               switches after = switches before \<and> last_state after = last_state before)
          \<and> (\<forall>s. polled (rs ! k) = Some s \<and> last_state before \<noteq> Some s \<longrightarrow>
               switches after = switches before @ [switch_for s] \<and> last_state after = Some s)"
    unfolding Let_def after using quiet edge by blast
qed

theorem edge_triggering_witness:
  "switches (fst (run_loop 3 \<lparr>last_state = None, trace = [], switches = []\<rparr>
      (as_rounds [(answering 0x08, wpctl_missing), (answering 0x02, wpctl_missing),
                  (silent, wpctl_missing), (answering 0x08, wpctl_missing),
                  (answering 0x01, wpctl_missing), (unplugged, wpctl_missing)])))
     = [(HEADPHONE_SINK_NAME, ''Headphones''), (SPEAKER_SINK_NAME, ''Speakers'')]"
proof -
  let ?rs = "[(answering 0x08, wpctl_missing), (answering 0x02, wpctl_missing),
              (silent, wpctl_missing), (answering 0x08, wpctl_missing),
              (answering 0x01, wpctl_missing), (unplugged, wpctl_missing)]"
  let ?init = "\<lparr>last_state = None, trace = [], switches = []\<rparr>"
  have "snd (run_loop 3 ?init (as_rounds ?rs)) = Running"
    by code_simp
  then have run: "run_loop 3 ?init (as_rounds ?rs) = (fst (run_loop 3 ?init (as_rounds ?rs)), Running)"
    by (simp add: prod_eq_iff)
  have polls: "map polled ?rs = [Some ON, Some ON, None, Some ON, Some OFF, None]"
    by code_simp
  from edge_triggering [OF run]
  have "switches (fst (run_loop 3 ?init (as_rounds ?rs)))
      = map switch_for (remdups_adj (definite (map polled ?rs)))"
    by (rule conjunct1)
  then show ?thesis
    unfolding polls by (simp add: definite_def switch_for_def)
qed

text \<open>
  Claim C3.  When the poll outcomes of six rounds are Unknown, Offline, Offline, Online,
  Unknown, Offline and the loop, started in its initial state, passes through them
  without dying, \<open>switch_audio\<close> is called three times: for the speakers in the second
  round, for the headphones in the fourth and for the speakers in the sixth.  The list
  gives the calls made after no round, after one round, and so on up to all six: the first,
  third and fifth round add none.
\<close>

theorem scenario_three_switches:
  assumes "map polled rs = [None, Some OFF, Some OFF, Some ON, None, Some OFF]"
    and "snd (run_loop fd \<lparr>last_state = None, trace = tr, switches = []\<rparr> (as_rounds rs)) = Running"
  shows "map (\<lambda>k. switches (fst (run_loop fd \<lparr>last_state = None, trace = tr, switches = []\<rparr>
                                      (as_rounds (take k rs)))))
             [0, 1, 2, 3, 4, 5, 6]
         = [[],
            [],
            [(SPEAKER_SINK_NAME, ''Speakers'')],
            [(SPEAKER_SINK_NAME, ''Speakers'')],
            [(SPEAKER_SINK_NAME, ''Speakers''), (HEADPHONE_SINK_NAME, ''Headphones'')],
            [(SPEAKER_SINK_NAME, ''Speakers''), (HEADPHONE_SINK_NAME, ''Headphones'')],
            [(SPEAKER_SINK_NAME, ''Speakers''), (HEADPHONE_SINK_NAME, ''Headphones''),
             (SPEAKER_SINK_NAME, ''Speakers'')]]"
proof -
  let ?init = "\<lparr>last_state = None, trace = tr, switches = []\<rparr>"
  have after: "switches (fst (run_loop fd ?init (as_rounds (take k rs))))
      = map switch_for (remdups_adj (definite (take k (map polled rs))))" for k
  proof -
    have "snd (run_loop fd ?init (as_rounds (take k rs))) = Running"
      by (rule run_loop_prefix [OF assms(2)])
    then have "run_loop fd ?init (as_rounds (take k rs))
        = (fst (run_loop fd ?init (as_rounds (take k rs))), Running)"
      by (simp add: prod_eq_iff)
    from run_loop_edges [OF this] show ?thesis
      by (simp add: known_def take_map)
  qed
  show ?thesis
    unfolding after assms(1)
    by (simp add: definite_def switch_for_def)
qed

theorem scenario_three_switches_witness:
  "switches (fst (run_loop 3 \<lparr>last_state = None, trace = [], switches = []\<rparr>
      (as_rounds [(silent, wpctl_works), (answering 0x01, wpctl_works),
                  (answering 0x01, wpctl_works), (answering 0x08, wpctl_works),
                  (answering 0x55, wpctl_works), (answering 0x01, wpctl_works)])))
     = [(SPEAKER_SINK_NAME, ''Speakers''), (HEADPHONE_SINK_NAME, ''Headphones''),
        (SPEAKER_SINK_NAME, ''Speakers'')]"
proof -
  let ?rs = "[(silent, wpctl_works), (answering 0x01, wpctl_works),
              (answering 0x01, wpctl_works), (answering 0x08, wpctl_works),
              (answering 0x55, wpctl_works), (answering 0x01, wpctl_works)]"
  have polls: "map polled ?rs = [None, Some OFF, Some OFF, Some ON, None, Some OFF]"
    by code_simp
  have run: "snd (run_loop 3 \<lparr>last_state = None, trace = [], switches = []\<rparr> (as_rounds ?rs))
      = Running"
    by code_simp
  show ?thesis
    using scenario_three_switches [OF polls run]
    by simp
qed

lemma get_headset_state_quiet:
  "snd (get_headset_state dev) = Some s \<Longrightarrow> fst (get_headset_state dev) = []"
  by (auto simp add: get_headset_state_def Let_def split: io.splits if_splits)

text \<open>
  Claim C7.  When a round polls a state that differs from the last known one and the
  lookup finds no sink for it, \<open>switch_audio\<close> prints its warning and returns, and the
  loop still records the new state.  From then on, in every run of rounds that poll that
  state or Unknown, the loop keeps running and calls \<open>switch_audio\<close> no more: the
  missed switch is not tried again before the state changes.
\<close>

theorem missed_switch_not_retried:
  assumes "snd (get_headset_state dev) = Some s" and "last_state st \<noteq> Some s"
    and "snd (find_sink_id (wpctl_status ctl) (fst (switch_for s))) = None"
  shows "\<exists>st'. loop_body st dev ctl = (st', Returns ())
      \<and> last_state st' = Some s
      \<and> switches st' = switches st @ [switch_for s]
      \<and> trace st' = trace st
          @ [Print (''Headset state changed: '' @ str_state (last_state st) @ '' -> ''
                    @ str_state (Some s))]
          @ fst (find_sink_id (wpctl_status ctl) (fst (switch_for s)))
          @ [Print (''WARNING: Could not find sink matching '' @ [CHR 0x27]
                    @ fst (switch_for s) @ [CHR 0x27])]
      \<and> (\<forall>rs. (\<forall>r\<in>set rs. polled r = None \<or> polled r = Some s) \<longrightarrow>
            (\<exists>st''. run_loop fd st' (as_rounds rs) = (st'', Running)
               \<and> switches st'' = switches st' \<and> last_state st'' = Some s))"
proof -
  obtain out where found: "find_sink_id (wpctl_status ctl) (fst (switch_for s)) = (out, None)"
    using assms(3) by (cases "find_sink_id (wpctl_status ctl) (fst (switch_for s))") auto
  have quiet: "fst (get_headset_state dev) = []"
    by (rule get_headset_state_quiet [OF assms(1)])
  then have poll: "get_headset_state dev = ([], Some s)"
    using assms(1) by (simp add: prod_eq_iff)
  let ?st' = "st\<lparr>trace := trace st
          @ [Print (''Headset state changed: '' @ str_state (last_state st) @ '' -> ''
                    @ str_state (Some s))]
          @ out
          @ [Print (''WARNING: Could not find sink matching '' @ [CHR 0x27]
                    @ fst (switch_for s) @ [CHR 0x27])],
        switches := switches st @ [switch_for s], last_state := Some s\<rparr>"
  have body: "loop_body st dev ctl = (?st', Returns ())"
    using assms(2) found
    by (cases s) (simp_all add: loop_body_def poll call_switch_audio_def switch_audio_def
        switch_for_def)
  have later: "\<exists>st''. run_loop fd ?st' (as_rounds rs) = (st'', Running)
               \<and> switches st'' = switches ?st' \<and> last_state st'' = Some s"
    if "\<forall>r\<in>set rs. polled r = None \<or> polled r = Some s" for rs
    using run_loop_quiet [of rs ?st' fd] that by simp
  show ?thesis
    using body later found by (intro exI [of _ ?st']) simp
qed

theorem missed_switch_not_retried_witness:
  "switches (fst (run_loop 3 \<lparr>last_state = Some ON, trace = [], switches = []\<rparr>
      (as_rounds [(answering 0x01, wpctl_works), (answering 0x01, wpctl_works),
                  (silent, wpctl_works), (answering 0x01, wpctl_works)])))
     = [(SPEAKER_SINK_NAME, ''Speakers'')]"
proof -
  let ?st = "\<lparr>last_state = Some ON, trace = [], switches = []\<rparr>"
  let ?rs = "[(answering 0x01, wpctl_works), (silent, wpctl_works), (answering 0x01, wpctl_works)]"
  have poll: "snd (get_headset_state (answering 0x01)) = Some OFF"
    by code_simp
  have differs: "last_state ?st \<noteq> Some OFF"
    by simp
  have miss: "snd (find_sink_id (wpctl_status wpctl_works) (fst (switch_for OFF))) = None"
    by code_simp
  have later: "\<forall>r\<in>set ?rs. polled r = None \<or> polled r = Some OFF"
    by code_simp
  from missed_switch_not_retried [OF poll differs miss, of 3] later
  obtain st' st'' where "loop_body ?st (answering 0x01) wpctl_works = (st', Returns ())"
    and "switches st' = switches ?st @ [switch_for OFF]"
    and "run_loop 3 st' (as_rounds ?rs) = (st'', Running)"
    and "switches st'' = switches st'"
    by blast
  then show ?thesis
    by (simp add: as_rounds_def switch_for_def)
qed

section \<open>Properties of the device locator\<close>

lemma scan_devices_first:
  "snd (scan_devices fs xs) =
     (case filter (\<lambda>d. qualifies (fs (uevent_path_of d))) xs of
        [] \<Rightarrow> None | d # ds \<Rightarrow> Some d)"
proof (induction xs)
  case Nil
  show ?case by simp
next
  case (Cons x xs)
  show ?case
  proof (cases "fs (uevent_path_of x)")
    case Missing
    then show ?thesis using Cons.IH by (simp add: qualifies_def)
  next
    case (Unreadable e)
    then show ?thesis using Cons.IH by (simp add: qualifies_def)
  next
    case (Content u)
    then show ?thesis using Cons.IH
      by (auto simp add: qualifies_def Let_def list_ex_iff split: prod.splits)
  qed
qed





section \<open>Properties of the output switch controller\<close>




























section \<open>Properties of the process\<close>

lemma find_hidraw_device_none:
  assumes "\<forall>d\<in>set nodes. \<not> qualifies (fs (uevent_path_of d))"
  shows "snd (find_hidraw_device nodes fs) = None"
proof -
  have "filter (\<lambda>d. qualifies (fs (uevent_path_of d))) (sort nodes) = []"
    using assms by (simp add: filter_empty_conv)
  then show ?thesis
    by (simp add: find_hidraw_device_def scan_devices_first)
qed

lemma main_in_loop:
  assumes "snd (main w) = Running"
  shows "\<exists>out d fd. find_hidraw_device (hidraw_nodes w) (sysfs w) = (out, Some d)
           \<and> d \<noteq> []
           \<and> open_device w = Opened fd
           \<and> main w = run_loop fd
               \<lparr>last_state = None,
                trace = Print ''SteelSeries Arctis Nova Pro Audio Switcher starting...'' # out
                        @ [Print (''Using device: '' @ d), Print ''Monitoring headset state...''],
                switches = []\<rparr>
               (rounds w)"
proof -
  obtain out device where f: "find_hidraw_device (hidraw_nodes w) (sysfs w) = (out, device)"
    by (cases "find_hidraw_device (hidraw_nodes w) (sysfs w)")
  from assms f obtain d where d: "device = Some d" "d \<noteq> []"
    by (cases device) (auto simp add: main_def Let_def split: if_splits)
  from assms f d obtain fd where fd: "open_device w = Opened fd"
    by (cases "open_device w") (auto simp add: main_def Let_def)
  show ?thesis
    using f d fd by (simp add: main_def Let_def)
qed

text \<open>
  Claim C9.  \<open>main\<close> ends with exit status 1 when no device node qualifies, and when
  the node found cannot be opened because \<open>os.open\<close> raises \<open>PermissionError\<close>.
  When the process is in the loop and the next thing that happens is a
  \<open>KeyboardInterrupt\<close>, it prints the farewell, closes the descriptor it opened and
  ends with exit status 0.
\<close>

theorem exit_codes:
  "((\<forall>d\<in>set (hidraw_nodes w). \<not> qualifies (sysfs w (uevent_path_of d)))
      \<longrightarrow> snd (main w) = Exit 1)
   \<and> (\<forall>d. snd (find_hidraw_device (hidraw_nodes w) (sysfs w)) = Some d
          \<and> open_device w = PermissionError
      \<longrightarrow> snd (main w) = Exit 1)
   \<and> (\<forall>fd rs later.
          open_device w = Opened fd
          \<and> rounds w = as_rounds rs @ Interrupt # later
          \<and> snd (main (w\<lparr>rounds := as_rounds rs\<rparr>)) = Running
      \<longrightarrow> snd (main w) = Exit 0
          \<and> (\<exists>tr. trace (fst (main w)) = tr @ [Print ''\<newline>Shutting down...'', Close fd]))"
proof (intro conjI allI impI)
  assume "\<forall>d\<in>set (hidraw_nodes w). \<not> qualifies (sysfs w (uevent_path_of d))"
  then have "snd (find_hidraw_device (hidraw_nodes w) (sysfs w)) = None"
    by (rule find_hidraw_device_none)
  then show "snd (main w) = Exit 1"
    by (cases "find_hidraw_device (hidraw_nodes w) (sysfs w)") (simp add: main_def Let_def)
next
  fix d
  assume "snd (find_hidraw_device (hidraw_nodes w) (sysfs w)) = Some d
          \<and> open_device w = PermissionError"
  then show "snd (main w) = Exit 1"
    by (cases "find_hidraw_device (hidraw_nodes w) (sysfs w)") (simp add: main_def Let_def)
next
  fix fd rs later
  assume h: "open_device w = Opened fd
          \<and> rounds w = as_rounds rs @ Interrupt # later
          \<and> snd (main (w\<lparr>rounds := as_rounds rs\<rparr>)) = Running"
  let ?w = "w\<lparr>rounds := as_rounds rs\<rparr>"
  from h have "snd (main ?w) = Running" by simp
  from main_in_loop [OF this] obtain out d fd' where
    f: "find_hidraw_device (hidraw_nodes w) (sysfs w) = (out, Some d)"
    and dne: "d \<noteq> []"
    and o: "open_device w = Opened fd'"
    and m: "main ?w = run_loop fd'
               \<lparr>last_state = None,
                trace = Print ''SteelSeries Arctis Nova Pro Audio Switcher starting...'' # out
                        @ [Print (''Using device: '' @ d), Print ''Monitoring headset state...''],
                switches = []\<rparr>
               (as_rounds rs)"
    by auto
  from h o have fd: "fd' = fd" by simp
  let ?init = "\<lparr>last_state = None,
                trace = Print ''SteelSeries Arctis Nova Pro Audio Switcher starting...'' # out
                        @ [Print (''Using device: '' @ d), Print ''Monitoring headset state...''],
                switches = []\<rparr>"
  obtain st where st: "run_loop fd ?init (as_rounds rs) = (st, Running)"
    using h m fd by (cases "run_loop fd ?init (as_rounds rs)") auto
  have "main w = run_loop fd ?init (as_rounds rs @ Interrupt # later)"
    using f dne o fd h by (simp add: main_def Let_def)
  also have "\<dots> = (st\<lparr>trace := trace st @ [Print ''\<newline>Shutting down...'', Close fd]\<rparr>, Exit 0)"
    unfolding run_loop_append st by simp
  finally have res: "main w = (st\<lparr>trace := trace st @ [Print ''\<newline>Shutting down...'', Close fd]\<rparr>, Exit 0)" .
  show "snd (main w) = Exit 0"
    by (simp add: res)
  show "\<exists>tr. trace (fst (main w)) = tr @ [Print ''\<newline>Shutting down...'', Close fd]"
    by (simp add: res)
qed

theorem exit_codes_witness:
  "snd (main \<lparr>hidraw_nodes = [''/dev/hidraw2'', ''/dev/hidraw0''], sysfs = example_sysfs,
               open_device = Opened 3, rounds = []\<rparr>) = Exit 1
   \<and> snd (main \<lparr>hidraw_nodes = [''/dev/hidraw3''], sysfs = example_sysfs,
               open_device = PermissionError, rounds = []\<rparr>) = Exit 1
   \<and> snd (main \<lparr>hidraw_nodes = [''/dev/hidraw3''], sysfs = example_sysfs,
               open_device = Opened 3,
               rounds = as_rounds [(answering 0x08, wpctl_works), (unplugged, wpctl_missing)]
                        @ Interrupt # [Cycle (answering 0x01) wpctl_works]\<rparr>) = Exit 0"
proof -
  let ?w1 = "\<lparr>hidraw_nodes = [''/dev/hidraw2'', ''/dev/hidraw0''], sysfs = example_sysfs,
               open_device = Opened 3, rounds = []\<rparr>"
  let ?w2 = "\<lparr>hidraw_nodes = [''/dev/hidraw3''], sysfs = example_sysfs,
               open_device = PermissionError, rounds = []\<rparr>"
  let ?rs = "[(answering 0x08, wpctl_works), (unplugged, wpctl_missing)]"
  let ?w3 = "\<lparr>hidraw_nodes = [''/dev/hidraw3''], sysfs = example_sysfs,
               open_device = Opened 3,
               rounds = as_rounds ?rs @ Interrupt # [Cycle (answering 0x01) wpctl_works]\<rparr>"
  have h1: "\<forall>d\<in>set (hidraw_nodes ?w1). \<not> qualifies (sysfs ?w1 (uevent_path_of d))"
    by code_simp
  have h2: "snd (find_hidraw_device (hidraw_nodes ?w2) (sysfs ?w2)) = Some ''/dev/hidraw3''
          \<and> open_device ?w2 = PermissionError"
    by code_simp
  have "snd (main \<lparr>hidraw_nodes = [''/dev/hidraw3''], sysfs = example_sysfs,
               open_device = Opened 3, rounds = as_rounds ?rs\<rparr>) = Running"
    by code_simp
  then have h3: "open_device ?w3 = Opened 3
          \<and> rounds ?w3 = as_rounds ?rs @ Interrupt # [Cycle (answering 0x01) wpctl_works]
          \<and> snd (main (?w3\<lparr>rounds := as_rounds ?rs\<rparr>)) = Running"
    by simp
  from exit_codes [of ?w1] h1 have r1: "snd (main ?w1) = Exit 1" by blast
  from exit_codes [of ?w2] h2 have r2: "snd (main ?w2) = Exit 1" by blast
  from exit_codes [of ?w3] h3 have r3: "snd (main ?w3) = Exit 0" by blast
  from r1 r2 r3 show ?thesis by blast
qed

text \<open>
  Every exception of a round but one stays in the round: whatever the device does
  (\<open>os.write\<close>, \<open>select\<close> or \<open>os.read\<close> raising, no answer in time, a short
  report) and whatever \<open>wpctl status\<close> does, the body of the loop raises only when
  starting \<open>wpctl set-default\<close> raises; an exit status of that command, zero or not,
  changes nothing.
\<close>

lemma loop_body_raises:
  assumes "snd (loop_body st dev ctl) = Raises e"
  shows "wpctl_set_default ctl = Raises e"
  using assms
  by (auto simp add: loop_body_def call_switch_audio_def switch_audio_def Let_def
      split: prod.splits io.splits if_splits option.splits)

lemma cycle_errors_contained:
  assumes "\<forall>r\<in>set rs. \<exists>status. wpctl_set_default (snd r) = Returns status"
  shows "snd (run_loop fd st (as_rounds rs)) = Running"
  using assms
proof (induction rs arbitrary: st)
  case Nil
  show ?case by (simp add: as_rounds_def)
next
  case (Cons r rs)
  obtain st1 res where body: "loop_body st (fst r) (snd r) = (st1, res)"
    by (cases "loop_body st (fst r) (snd r)")
  have "res = Returns ()"
  proof (cases res)
    case (Raises e)
    with body have "wpctl_set_default (snd r) = Raises e"
      using loop_body_raises [of st "fst r" "snd r" e] by simp
    with Cons.prems show ?thesis by auto
  next
    case (Returns u)
    then show ?thesis by simp
  qed
  moreover have "snd (run_loop fd st1 (as_rounds rs)) = Running"
    using Cons.IH Cons.prems by simp
  ultimately show ?case
    using body by (simp add: as_rounds_def)
qed

text \<open>
  Claim C6.  The claim fails for one error of a switch cycle.  The headset answers Online,
  \<open>wpctl status\<close> lists the sink 52, and starting \<open>wpctl set-default 52\<close> raises
  \<open>OSError\<close>: the exception leaves \<open>switch_audio\<close>, passes
  \<open>except KeyboardInterrupt\<close>, and the process dies of it with exit status 1 after
  \<open>finally\<close> has closed the descriptor.  The round that follows, in which the headset
  is Offline, never happens: one switch is all there is.
\<close>

theorem set_default_failure_ends_loop:
  "snd (main \<lparr>hidraw_nodes = [''/dev/hidraw3''], sysfs = example_sysfs, open_device = Opened 3,
               rounds = [Cycle (answering 0x08) wpctl_set_default_fails_to_start,
                         Cycle (answering 0x01) wpctl_works]\<rparr>)
     = Uncaught ''[Errno 11] Resource temporarily unavailable''
   \<and> exit_status (snd (main \<lparr>hidraw_nodes = [''/dev/hidraw3''], sysfs = example_sysfs,
               open_device = Opened 3,
               rounds = [Cycle (answering 0x08) wpctl_set_default_fails_to_start,
                         Cycle (answering 0x01) wpctl_works]\<rparr>))
     = Some 1
   \<and> switches (fst (main \<lparr>hidraw_nodes = [''/dev/hidraw3''], sysfs = example_sysfs,
               open_device = Opened 3,
               rounds = [Cycle (answering 0x08) wpctl_set_default_fails_to_start,
                         Cycle (answering 0x01) wpctl_works]\<rparr>))
     = [(HEADPHONE_SINK_NAME, ''Headphones'')]"
  by code_simp

end
